theory Spec2Isabelle
  imports Complex_Main "HOL-Library.Multiset" "HOL-Library.Log_Nat"
begin

section \<open>Python values used by the fitness coach\<close>

text \<open>
  The application (\<^verbatim>\<open>app.py\<close>) is Python. Its core consists of
  \<^verbatim>\<open>ferramenta_matematica_treino\<close> (metrics), \<^verbatim>\<open>generate_plan\<close> (scheduler) and
  \<^verbatim>\<open>render_plan_markdown\<close> (renderer). Exceptions are values of \<open>py_error\<close>; a function
  that can raise returns \<open>py_error + 'a\<close> with \<open>Inl\<close> for the exception.
\<close>

datatype py_error = ZeroDivisionError | OverflowError | ValueError | IndexError

definition bindE :: "py_error + 'a \<Rightarrow> ('a \<Rightarrow> py_error + 'b) \<Rightarrow> py_error + 'b" where
  "bindE m f = (case m of Inl e \<Rightarrow> Inl e | Inr x \<Rightarrow> f x)"

text \<open>
  Python strings are sequences of code points. Here a string is the list of the bytes of
  its UTF-8 encoding, which is injective, so equality of strings (the only operation the
  scheduler applies to goal and exercise names) is preserved. The accented letters of the
  Portuguese texts are written as their two UTF-8 bytes.
\<close>

abbreviation u_aacute :: string where "u_aacute \<equiv> [CHR 0xC3, CHR 0xA1]"
abbreviation u_atilde :: string where "u_atilde \<equiv> [CHR 0xC3, CHR 0xA3]"
abbreviation u_ccedil :: string where "u_ccedil \<equiv> [CHR 0xC3, CHR 0xA7]"
abbreviation u_eacute :: string where "u_eacute \<equiv> [CHR 0xC3, CHR 0xA9]"
abbreviation u_ecirc :: string where "u_ecirc \<equiv> [CHR 0xC3, CHR 0xAA]"
abbreviation u_iacute :: string where "u_iacute \<equiv> [CHR 0xC3, CHR 0xAD]"
abbreviation u_oacute :: string where "u_oacute \<equiv> [CHR 0xC3, CHR 0xB3]"
abbreviation u_ocirc :: string where "u_ocirc \<equiv> [CHR 0xC3, CHR 0xB4]"
abbreviation u_otilde :: string where "u_otilde \<equiv> [CHR 0xC3, CHR 0xB5]"
abbreviation u_uacute :: string where "u_uacute \<equiv> [CHR 0xC3, CHR 0xBA]"
abbreviation u_endash :: string where "u_endash \<equiv> [CHR 0xE2, CHR 0x80, CHR 0x93]"

text \<open>
  A Python \<^verbatim>\<open>float\<close> is an IEEE 754 binary64 number: a finite value (a rational; the two
  signed zeros are identified, as \<^verbatim>\<open>==\<close> identifies them), an infinity or a NaN.
\<close>

datatype pyfloat = Fin rat | PInf | NInf | NaN

section \<open>The random source\<close>

text \<open>
  \<^verbatim>\<open>random.sample\<close> and \<^verbatim>\<open>random.shuffle\<close> draw from the process-wide generator. The
  generator is an explicit state: an infinite sequence of raw draws and the position of
  the next one. \<open>randbelow n\<close> is the library's \<^verbatim>\<open>_randbelow(n)\<close>: a number below \<open>n\<close>.
  Every number below \<open>n\<close> is a possible outcome, so a statement for all generators covers
  every outcome of the random choices.
\<close>

record rng =
  draws :: "nat \<Rightarrow> nat"
  pos :: nat

definition randbelow :: "nat \<Rightarrow> rng \<Rightarrow> nat \<times> rng" where
  "randbelow n g = (draws g (pos g) mod n, g\<lparr>pos := Suc (pos g)\<rparr>)"

text \<open>
  \<^verbatim>\<open>random.sample(population, k)\<close> for a population of at most 21 elements (all the
  catalogue lists are that small):
  \<^verbatim>\<open>
    if not 0 <= k <= n: raise ValueError(...)
    pool = list(population)
    for i in range(k):
        j = randbelow(n - i)
        result[i] = pool[j]
        pool[j] = pool[n - i - 1]
  \<close>
  The model keeps only the first \<open>n - i\<close> elements of the pool, the ones still in play.
\<close>

fun sample_loop :: "'a list \<Rightarrow> nat \<Rightarrow> rng \<Rightarrow> 'a list \<times> rng" where
  "sample_loop pool 0 g = ([], g)"
| "sample_loop pool (Suc k) g =
     (case randbelow (length pool) g of (j, g1) \<Rightarrow>
        (case sample_loop (butlast (pool[j := last pool])) k g1 of (ys, g2) \<Rightarrow>
           (pool ! j # ys, g2)))"

definition random_sample :: "'a list \<Rightarrow> nat \<Rightarrow> rng \<Rightarrow> py_error + ('a list \<times> rng)" where
  "random_sample population k g =
     (if k \<le> length population then Inr (sample_loop population k g) else Inl ValueError)"

text \<open>
  \<^verbatim>\<open>random.shuffle(x)\<close>:
  \<^verbatim>\<open>
    for i in reversed(range(1, len(x))):
        j = randbelow(i + 1)
        x[i], x[j] = x[j], x[i]
  \<close>
\<close>

fun shuffle_loop :: "nat list \<Rightarrow> 'a list \<Rightarrow> rng \<Rightarrow> 'a list \<times> rng" where
  "shuffle_loop [] x g = (x, g)"
| "shuffle_loop (i # is) x g =
     (case randbelow (i + 1) g of (j, g1) \<Rightarrow> shuffle_loop is (x[i := x ! j, j := x ! i]) g1)"

definition random_shuffle :: "'a list \<Rightarrow> rng \<Rightarrow> 'a list \<times> rng" where
  "random_shuffle x g = shuffle_loop (rev [1..<length x]) x g"

section \<open>The exercise catalogue\<close>

definition exercise_dict :: "(string \<times> string list) list" where
  "exercise_dict =
    [(''chest'',
       [''Supino reto com barra'', ''Supino inclinado com halteres'',
        ''Crucifixo na m'' @ u_aacute @ ''quina'', ''Peck deck'',
        ''Flex'' @ u_otilde @ ''es'']),
     (''triceps'',
       [''Tr'' @ u_iacute @ ''ceps pulley'', ''Tr'' @ u_iacute @ ''ceps testa'',
        ''Mergulho banco'', ''Tr'' @ u_iacute @ ''ceps corda'', ''Kickback'']),
     (''back'',
       [''Puxada frontal'', ''Remada curvada com barra'', ''Remada unilateral com haltere'',
        ''Pulldown'', ''Levantamento terra'']),
     (''biceps'',
       [''Rosca direta com barra'', ''Rosca alternada'', ''Rosca martelo'',
        ''Rosca concentrada'', ''Rosca Scott'']),
     (''legs'',
       [''Agachamento livre'', ''Leg press'', ''Cadeira extensora'', ''Cadeira flexora'',
        ''Afundo com halteres'', ''Panturrilha em p'' @ u_eacute]),
     (''shoulders'',
       [''Desenvolvimento com barra'', ''Desenvolvimento com halteres'',
        ''Eleva'' @ u_ccedil @ u_atilde @ ''o lateral'',
        ''Eleva'' @ u_ccedil @ u_atilde @ ''o frontal'', ''Remada alta'']),
     (''glutes'',
       [''Agachamento sum'' @ u_ocirc, ''Peso morto stiff'', ''Glute bridge'',
        ''Cadeira abdutora'', ''Eleva'' @ u_ccedil @ u_atilde @ ''o de quadril'']),
     (''abs'',
       [''Prancha'', ''Abdominal supra'', ''Eleva'' @ u_ccedil @ u_atilde @ ''o de pernas'',
        ''Abdominal obl'' @ u_iacute @ ''quo'', ''Prancha lateral''])]"

text \<open>\<^verbatim>\<open>exercise_dict.get(muscle, [])\<close>\<close>

definition exercise_dict_get :: "string \<Rightarrow> string list" where
  "exercise_dict_get muscle =
     (case map_of exercise_dict muscle of Some choices \<Rightarrow> choices | None \<Rightarrow> [])"

definition cardio_exercises :: "string list" where
  "cardio_exercises =
    [''Burpees'', ''Mountain climbers'', ''Agachamento com salto'', ''Polichinelos'',
     ''Corrida estacion'' @ u_aacute @ ''ria'', ''Pular corda'', ''Kettlebell swing'',
     ''Clean and press com halteres leves'', ''Flex'' @ u_otilde @ ''es'',
     ''Abdominal bicicleta'']"

record split =
  split_name :: string
  split_muscles :: "string list"
  split_focus :: string

definition hypertrophy_splits :: "split list" where
  "hypertrophy_splits =
    [\<lparr>split_name = ''Treino A - Peito e Tr'' @ u_iacute @ ''ceps'',
      split_muscles = [''chest'', ''triceps''],
      split_focus = ''Peito e Tr'' @ u_iacute @ ''ceps''\<rparr>,
     \<lparr>split_name = ''Treino B - Costas e B'' @ u_iacute @ ''ceps'',
      split_muscles = [''back'', ''biceps''],
      split_focus = ''Costas e B'' @ u_iacute @ ''ceps''\<rparr>,
     \<lparr>split_name = ''Treino C - Pernas e Ombros'',
      split_muscles = [''legs'', ''shoulders''],
      split_focus = ''Pernas e Ombros''\<rparr>,
     \<lparr>split_name = ''Treino D - Peito e Costas'',
      split_muscles = [''chest'', ''back''],
      split_focus = ''Peito e Costas''\<rparr>,
     \<lparr>split_name = ''Treino E - Pernas e Gl'' @ u_uacute @ ''teos'',
      split_muscles = [''legs'', ''glutes''],
      split_focus = ''Pernas e Gl'' @ u_uacute @ ''teos''\<rparr>,
     \<lparr>split_name = ''Treino F - Ombros e Bra'' @ u_ccedil @ ''os'',
      split_muscles = [''shoulders'', ''biceps'', ''triceps''],
      split_focus = ''Ombros e Bra'' @ u_ccedil @ ''os''\<rparr>]"

definition strength_splits :: "split list" where
  "strength_splits =
    [\<lparr>split_name = ''Treino A - Agachamento'',
      split_muscles = [''legs'', ''glutes'', ''back''],
      split_focus = ''For'' @ u_ccedil @ ''a em Agachamento''\<rparr>,
     \<lparr>split_name = ''Treino B - Supino e Press'',
      split_muscles = [''chest'', ''shoulders'', ''triceps''],
      split_focus = ''For'' @ u_ccedil @ ''a em Supino''\<rparr>,
     \<lparr>split_name = ''Treino C - Deadlift'',
      split_muscles = [''legs'', ''back''],
      split_focus = ''For'' @ u_ccedil @ ''a em Deadlift''\<rparr>,
     \<lparr>split_name = ''Treino D - Full Body'',
      split_muscles = [''legs'', ''back'', ''chest'', ''shoulders''],
      split_focus = ''For'' @ u_ccedil @ ''a Total''\<rparr>]"

definition conditioning_splits :: "split list" where
  "conditioning_splits =
    [\<lparr>split_name = ''Circuito HIIT'', split_muscles = [],
      split_focus = ''Alta intensidade''\<rparr>,
     \<lparr>split_name = ''Circuito de Resist'' @ u_ecirc @ ''ncia'', split_muscles = [],
      split_focus = ''Resist'' @ u_ecirc @ ''ncia Muscular''\<rparr>,
     \<lparr>split_name = ''Circuito Cardio e For'' @ u_ccedil @ ''a'', split_muscles = [],
      split_focus = ''Cardio e For'' @ u_ccedil @ ''a''\<rparr>,
     \<lparr>split_name = ''Circuito Funcional'', split_muscles = [],
      split_focus = ''Funcional''\<rparr>]"

definition emagrecimento_splits :: "split list" where
  "emagrecimento_splits =
    [\<lparr>split_name = ''Circuito A'', split_muscles = [], split_focus = ''Circuito''\<rparr>,
     \<lparr>split_name = ''Circuito B'', split_muscles = [], split_focus = ''Circuito''\<rparr>,
     \<lparr>split_name = ''Circuito C'', split_muscles = [], split_focus = ''Circuito''\<rparr>,
     \<lparr>split_name = ''Circuito D'', split_muscles = [], split_focus = ''Circuito''\<rparr>]"

section \<open>The plan scheduler\<close>

record user_profile =
  age :: int
  weight_kg :: pyfloat
  training_frequency :: int
  primary_goal :: string
  experience_level :: string
  restrictions :: "string option"
  additional_notes :: "string option"
  height_cm :: "pyfloat option"

record analytics =
  an_goal :: string
  estimated_session_calories :: pyfloat
  estimated_weekly_calories :: pyfloat
  bmi :: "pyfloat option"
  recommended_rep_range :: string
  recommended_intensity :: string
  volume_per_session :: string
  sessions_per_week :: int
  an_experience_level :: string

record prescription =
  rx_exercise :: string
  rx_sets :: int
  rx_reps :: string
  rx_rest :: string
  rx_notes :: string

record session =
  sess_day :: int
  sess_name :: string
  sess_focus :: string
  sess_resumo :: string
  sess_exercises :: "prescription list"
  sess_conditioning :: "string option"
  sess_mobility :: "string option"
  sess_progression :: "string option"

record week =
  week_num :: int
  week_focus :: string
  week_sessions :: "session list"

record overview =
  ov_primary_goal :: string
  ov_focus_points :: "string list"
  macrocycle_length_weeks :: int

record plan =
  plan_overview :: overview
  guidelines :: "string list"
  training_weeks :: "week list"
  recovery :: "string list"
  nutrition_tips :: "string list"
  progression_strategy :: string

definition total_sessions :: nat where
  "total_sessions = 12"

text \<open>The loop over the muscles of a split inside \<^verbatim>\<open>pick_exercises\<close>.\<close>

fun pick_muscles :: "string list \<Rightarrow> string list \<Rightarrow> rng \<Rightarrow> py_error + (string list \<times> rng)" where
  "pick_muscles [] exercises g = Inr (exercises, g)"
| "pick_muscles (muscle # muscles) exercises g =
     (let choices = exercise_dict_get muscle in
      if choices \<noteq> [] then
        (case random_sample choices (min 2 (length choices)) g of
           Inl e \<Rightarrow> Inl e
         | Inr (selected, g1) \<Rightarrow> pick_muscles muscles (exercises @ selected) g1)
      else pick_muscles muscles exercises g)"

definition pick_exercises :: "string list \<Rightarrow> string \<Rightarrow> rng \<Rightarrow> py_error + (string list \<times> rng)" where
  "pick_exercises muscles obj g =
     (if obj \<in> {''hipertrofia'', ''forca''} then
        (case pick_muscles muscles [] g of
           Inl e \<Rightarrow> Inl e
         | Inr (exercises, g1) \<Rightarrow>
             (case random_shuffle exercises g1 of (shuffled, g2) \<Rightarrow> Inr (take 6 shuffled, g2)))
      else random_sample cardio_exercises 5 g)"

text \<open>Indexing a list: \<^verbatim>\<open>xs[i]\<close> for a non-negative index.\<close>

definition list_get :: "'a list \<Rightarrow> nat \<Rightarrow> py_error + 'a" where
  "list_get xs i = (if i < length xs then Inr (xs ! i) else Inl IndexError)"

text \<open>The choice of the split of a session, by the goal and the running session counter.\<close>

definition select_split :: "string \<Rightarrow> nat \<Rightarrow> py_error + split" where
  "select_split goal sessions_generated =
     (if goal = ''hipertrofia'' then
        list_get hypertrophy_splits (sessions_generated mod length hypertrophy_splits)
      else if goal = ''forca'' then
        list_get strength_splits (sessions_generated mod length strength_splits)
      else if goal = ''condicionamento'' then
        list_get conditioning_splits (sessions_generated mod length conditioning_splits)
      else
        list_get emagrecimento_splits (sessions_generated mod length emagrecimento_splits))"

text \<open>The prescription appended to \<^verbatim>\<open>ex_list\<close> for one exercise.\<close>

definition prescribe :: "string \<Rightarrow> string \<Rightarrow> prescription" where
  "prescribe goal ex =
     (if goal = ''hipertrofia'' then
        \<lparr>rx_exercise = ex, rx_sets = 4, rx_reps = ''8-12'', rx_rest = ''60-90s'', rx_notes = ''''\<rparr>
      else if goal = ''forca'' then
        \<lparr>rx_exercise = ex, rx_sets = 4, rx_reps = ''4-6'', rx_rest = ''2-3min'', rx_notes = ''''\<rparr>
      else if goal = ''emagrecimento'' then
        \<lparr>rx_exercise = ex, rx_sets = 3, rx_reps = ''12-15'', rx_rest = ''30s'', rx_notes = ''''\<rparr>
      else
        \<lparr>rx_exercise = ex, rx_sets = 3, rx_reps = ''10-15'', rx_rest = ''30-60s'', rx_notes = ''''\<rparr>)"

text \<open>The body of the loop over the days: one session.\<close>

definition make_session :: "string \<Rightarrow> int \<Rightarrow> nat \<Rightarrow> rng \<Rightarrow> py_error + (session \<times> rng)" where
  "make_session goal day sessions_generated g =
     (case select_split goal sessions_generated of
        Inl e \<Rightarrow> Inl e
      | Inr split \<Rightarrow>
          (case pick_exercises (split_muscles split) goal g of
             Inl e \<Rightarrow> Inl e
           | Inr (exercises, g1) \<Rightarrow>
               Inr (\<lparr>sess_day = day, sess_name = split_name split,
                     sess_focus = split_focus split, sess_resumo = '''',
                     sess_exercises = map (prescribe goal) exercises,
                     sess_conditioning = None, sess_mobility = None,
                     sess_progression = None\<rparr>, g1)))"

text \<open>
  \<^verbatim>\<open>for day in range(1, freq + 1)\<close>, with its \<^verbatim>\<open>break\<close> once twelve sessions exist. The
  state is the session counter, the sessions of the week so far and the generator.
\<close>

fun day_loop :: "string \<Rightarrow> int list \<Rightarrow> nat \<Rightarrow> session list \<Rightarrow> rng
    \<Rightarrow> py_error + (session list \<times> nat \<times> rng)" where
  "day_loop goal [] sg wsessions g = Inr (wsessions, sg, g)"
| "day_loop goal (day # days) sg wsessions g =
     (if sg \<ge> total_sessions then Inr (wsessions, sg, g)
      else
        (case make_session goal day sg g of
           Inl e \<Rightarrow> Inl e
         | Inr (s, g1) \<Rightarrow> day_loop goal days (sg + 1) (wsessions @ [s]) g1))"

text \<open>
  \<^verbatim>\<open>for week_num in range(1, weeks + 1)\<close>, with its \<^verbatim>\<open>break\<close> after the week that reaches
  twelve sessions.
\<close>

fun week_loop :: "string \<Rightarrow> int \<Rightarrow> int list \<Rightarrow> nat \<Rightarrow> week list \<Rightarrow> rng
    \<Rightarrow> py_error + (week list \<times> nat \<times> rng)" where
  "week_loop goal freq [] sg tweeks g = Inr (tweeks, sg, g)"
| "week_loop goal freq (wn # wns) sg tweeks g =
     (case day_loop goal [1..freq] sg [] g of
        Inl e \<Rightarrow> Inl e
      | Inr (wsessions, sg1, g1) \<Rightarrow>
          (let tweeks1 = tweeks @ [\<lparr>week_num = wn, week_focus = ''Semana de '' @ goal,
                                    week_sessions = wsessions\<rparr>] in
           if sg1 \<ge> total_sessions then Inr (tweeks1, sg1, g1)
           else week_loop goal freq wns sg1 tweeks1 g1))"

text \<open>
  \<^verbatim>\<open>generate_plan(user_profile, analytics)\<close>. The floor division by a zero frequency
  raises. The result is the plan and the generator after the draws.
\<close>

definition generate_plan :: "user_profile \<Rightarrow> analytics \<Rightarrow> rng \<Rightarrow> py_error + (plan \<times> rng)" where
  "generate_plan user_profile analytics g =
     (let goal = primary_goal user_profile;
          freq = training_frequency user_profile in
      if freq = 0 then Inl ZeroDivisionError
      else
        (let weeks = (int total_sessions + freq - 1) div freq in
         case week_loop goal freq [1..weeks] 0 [] g of
           Inl e \<Rightarrow> Inl e
         | Inr (tweeks, sg, g1) \<Rightarrow>
             Inr (\<lparr>plan_overview =
                     \<lparr>ov_primary_goal = goal, ov_focus_points = [goal],
                      macrocycle_length_weeks = weeks\<rparr>,
                   guidelines =
                     [''Realize um aquecimento de 5-10 minutos antes das sess'' @ u_otilde @ ''es'',
                      ''Mantenha-se hidratado durante todo o treino'',
                      ''Foque na execu'' @ u_ccedil @ u_atilde @ ''o correta dos movimentos''],
                   training_weeks = tweeks,
                   recovery =
                     [''Durma pelo menos 7-8 horas por noite'',
                      ''Inclua alongamentos ap'' @ u_oacute @ ''s os treinos'',
                      ''Fa'' @ u_ccedil @ ''a dias de descanso ativo conforme necess'' @ u_aacute @ ''rio''],
                   nutrition_tips =
                     [''Ajuste sua alimenta'' @ u_ccedil @ u_atilde @ ''o de acordo com o objetivo'',
                      ''Inclua prote'' @ u_iacute @ ''nas magras e carboidratos complexos'',
                      ''Beba bastante '' @ u_aacute @ ''gua''],
                   progression_strategy =
                     ''Aumente gradualmente a carga ou repeti'' @ u_ccedil @ u_otilde
                       @ ''es a cada semana conforme se sentir confort'' @ u_aacute @ ''vel.''\<rparr>,
                  g1)))"

text \<open>The numbers of sessions of the weeks of a plan, and all its sessions in order.\<close>

definition session_counts :: "plan \<Rightarrow> nat list" where
  "session_counts p = map (\<lambda>w. length (week_sessions w)) (training_weeks p)"

definition all_sessions :: "plan \<Rightarrow> session list" where
  "all_sessions p = concat (map week_sessions (training_weeks p))"

section \<open>Notions used to state the properties of the scheduler\<close>

text \<open>
  The split list of a goal, in its fixed order: the list that the \<^verbatim>\<open>if\<close>/\<^verbatim>\<open>elif\<close>
  chain of \<^verbatim>\<open>generate_plan\<close> indexes for that goal.
\<close>

definition goal_splits :: "string \<Rightarrow> split list" where
  "goal_splits goal =
     (if goal = ''hipertrofia'' then hypertrophy_splits
      else if goal = ''forca'' then strength_splits
      else if goal = ''condicionamento'' then conditioning_splits
      else emagrecimento_splits)"

definition split_at :: "string \<Rightarrow> nat \<Rightarrow> split" where
  "split_at goal k = goal_splits goal ! (k mod length (goal_splits goal))"

text \<open>The goals for which \<^verbatim>\<open>pick_exercises\<close> draws from the muscle catalogue.\<close>

definition muscle_goal :: "string \<Rightarrow> bool" where
  "muscle_goal goal \<longleftrightarrow> goal = ''hipertrofia'' \<or> goal = ''forca''"

definition exercise_names :: "session \<Rightarrow> string list" where
  "exercise_names s = map rx_exercise (sess_exercises s)"

text \<open>
  \<open>drawn_from muscle part\<close>: \<open>part\<close> is a draw without replacement of two exercises (or of
  all of them, when there are fewer) from the catalogue list of \<open>muscle\<close>.
\<close>

definition drawn_from :: "string \<Rightarrow> string list \<Rightarrow> bool" where
  "drawn_from muscle part \<longleftrightarrow>
     length part = min 2 (length (exercise_dict_get muscle)) \<and>
     mset part \<subseteq># mset (exercise_dict_get muscle)"

text \<open>
  \<open>session_of goal day k s\<close>: \<open>s\<close> is a session that the loop body can produce for the
  \<open>k\<close>-th session of the plan on day \<open>day\<close>, for some state of the generator.
\<close>

definition session_of :: "string \<Rightarrow> int \<Rightarrow> nat \<Rightarrow> session \<Rightarrow> bool" where
  "session_of goal day k s \<longleftrightarrow> (\<exists>g g'. make_session goal day k g = Inr (s, g'))"

section \<open>Example inputs\<close>

text \<open>A profile as the form builds it, an analytics record and a generator.\<close>

definition example_profile :: "string \<Rightarrow> int \<Rightarrow> user_profile" where
  "example_profile goal freq =
     \<lparr>age = 25, weight_kg = Fin 75, training_frequency = freq, primary_goal = goal,
      experience_level = ''iniciante'', restrictions = None, additional_notes = None,
      height_cm = None\<rparr>"

definition example_analytics :: "string \<Rightarrow> analytics" where
  "example_analytics goal =
     \<lparr>an_goal = goal, estimated_session_calories = Fin 540, estimated_weekly_calories = Fin 2160,
      bmi = None, recommended_rep_range = ''6-12'', recommended_intensity = ''70-80% 1RM'',
      volume_per_session = ''14-18 s'' @ u_eacute @ ''ries por grupamento'',
      sessions_per_week = 4, an_experience_level = ''iniciante''\<rparr>"

definition example_rng :: rng where
  "example_rng = \<lparr>draws = (\<lambda>i. 7 * i + 3), pos = 0\<rparr>"

section \<open>The random draws\<close>

lemma randbelow_less: "0 < n \<Longrightarrow> fst (randbelow n g) < n"
  by (simp add: randbelow_def)

lemma sample_loop_length: "length (fst (sample_loop pool k g)) = k"
  by (induction k arbitrary: pool g) (simp_all add: case_prod_beta)

lemma mset_drop_slot:
  assumes "j < length pool"
  shows "add_mset (pool ! j) (mset (butlast (pool[j := last pool]))) = mset pool"
proof (cases "j = length pool - 1")
  case True
  with assms have "pool \<noteq> []" by auto
  have "pool[j := last pool] = pool"
    using True \<open>pool \<noteq> []\<close> by (simp add: last_conv_nth)
  moreover have "pool ! j = last pool"
    using True \<open>pool \<noteq> []\<close> by (simp add: last_conv_nth)
  moreover have "add_mset (last pool) (mset (butlast pool)) = mset pool"
    using \<open>pool \<noteq> []\<close> by (metis append_butlast_last_id mset.simps(2) mset_append union_mset_add_mset_right add.right_neutral mset.simps(1))
  ultimately show ?thesis by simp
next
  case False
  with assms have j: "j < length pool - 1" by simp
  then have ne: "pool \<noteq> []" by auto
  obtain ys y where pool: "pool = ys @ [y]"
    using ne by (metis append_butlast_last_id)
  with j have jy: "j < length ys" by simp
  have "butlast (pool[j := last pool]) = ys[j := y]"
    using pool jy by (simp add: list_update_append)
  moreover have "pool ! j = ys ! j"
    using pool jy by (simp add: nth_append)
  moreover have "add_mset (ys ! j) (mset (ys[j := y])) = add_mset y (mset ys)"
    using jy by (simp add: mset_update)
  ultimately show ?thesis using pool by simp
qed

lemma sample_loop_mset:
  "k \<le> length pool \<Longrightarrow> mset (fst (sample_loop pool k g)) \<subseteq># mset pool"
proof (induction k arbitrary: pool g)
  case 0
  then show ?case by simp
next
  case (Suc k)
  obtain j g1 where r: "randbelow (length pool) g = (j, g1)" by force
  from Suc.prems have pos: "0 < length pool" by auto
  with randbelow_less [of "length pool" g] r have j: "j < length pool" by simp
  let ?pool' = "butlast (pool[j := last pool])"
  have "k \<le> length ?pool'" using Suc.prems by simp
  from Suc.IH [OF this, of g1]
  have "mset (fst (sample_loop ?pool' k g1)) \<subseteq># mset ?pool'" .
  then have "add_mset (pool ! j) (mset (fst (sample_loop ?pool' k g1))) \<subseteq># mset pool"
    using mset_drop_slot [OF j] by (metis mset_subset_eq_add_mset_cancel)
  then show ?case using r by (simp add: case_prod_beta)
qed

lemma shuffle_loop_mset:
  "\<forall>i\<in>set is. i < length x \<Longrightarrow> mset (fst (shuffle_loop is x g)) = mset x"
proof (induction "is" arbitrary: x g)
  case Nil
  then show ?case by simp
next
  case (Cons i "is")
  obtain j g1 where r: "randbelow (i + 1) g = (j, g1)" by force
  with randbelow_less [of "i + 1" g] have "j < i + 1" by simp
  with Cons.prems have j: "j < length x" and i: "i < length x" by auto
  have m: "mset (x[i := x ! j, j := x ! i]) = mset x"
    using mset_swap [OF j i] .
  have "\<forall>n\<in>set is. n < length (x[i := x ! j, j := x ! i])" using Cons.prems by simp
  from Cons.IH [OF this, of g1] m r show ?case by simp
qed

lemma random_shuffle_mset: "mset (fst (random_shuffle x g)) = mset x"
  unfolding random_shuffle_def by (rule shuffle_loop_mset) auto

lemma random_sample_ok:
  assumes "k \<le> length population"
  shows "\<exists>ys g'. random_sample population k g = Inr (ys, g') \<and> length ys = k
           \<and> mset ys \<subseteq># mset population"
proof -
  obtain ys g' where s: "sample_loop population k g = (ys, g')" by force
  have "length ys = k" using sample_loop_length [of population k g] s by simp
  moreover have "mset ys \<subseteq># mset population"
    using sample_loop_mset [OF assms, of g] s by simp
  ultimately show ?thesis using assms s by (simp add: random_sample_def)
qed

lemma pick_muscles_ok:
  "\<exists>parts g'. pick_muscles muscles exercises g = Inr (exercises @ concat parts, g')
      \<and> list_all2 drawn_from muscles parts"
proof (induction muscles arbitrary: exercises g)
  case Nil
  then show ?case by simp
next
  case (Cons muscle muscles)
  let ?choices = "exercise_dict_get muscle"
  show ?case
  proof (cases "?choices = []")
    case True
    from Cons.IH [of exercises g] obtain parts g' where
      "pick_muscles muscles exercises g = Inr (exercises @ concat parts, g')"
      "list_all2 drawn_from muscles parts" by blast
    then have "pick_muscles (muscle # muscles) exercises g
                 = Inr (exercises @ concat ([] # parts), g')
               \<and> list_all2 drawn_from (muscle # muscles) ([] # parts)"
      using True by (simp add: drawn_from_def)
    then show ?thesis by blast
  next
    case False
    have "min 2 (length ?choices) \<le> length ?choices" by simp
    from random_sample_ok [OF this, of g] obtain selected g1 where
      s: "random_sample ?choices (min 2 (length ?choices)) g = Inr (selected, g1)"
      and l: "length selected = min 2 (length ?choices)"
      and m: "mset selected \<subseteq># mset ?choices" by blast
    from Cons.IH [of "exercises @ selected" g1] obtain parts g' where
      "pick_muscles muscles (exercises @ selected) g1
         = Inr ((exercises @ selected) @ concat parts, g')"
      "list_all2 drawn_from muscles parts" by blast
    then have "pick_muscles (muscle # muscles) exercises g
                 = Inr (exercises @ concat (selected # parts), g')
               \<and> list_all2 drawn_from (muscle # muscles) (selected # parts)"
      using False s l m by (simp add: drawn_from_def)
    then show ?thesis by blast
  qed
qed

lemma pick_exercises_muscle:
  assumes "obj = ''hipertrofia'' \<or> obj = ''forca''"
  shows "\<exists>parts shuffled g'. pick_exercises muscles obj g = Inr (take 6 shuffled, g')
           \<and> mset shuffled = mset (concat parts) \<and> list_all2 drawn_from muscles parts"
proof -
  from pick_muscles_ok [of muscles "[]" g] obtain parts g1 where
    p: "pick_muscles muscles [] g = Inr (concat parts, g1)"
    and d: "list_all2 drawn_from muscles parts" by auto
  obtain shuffled g2 where s: "random_shuffle (concat parts) g1 = (shuffled, g2)" by force
  have "mset shuffled = mset (concat parts)"
    using random_shuffle_mset [of "concat parts" g1] s by simp
  moreover have "pick_exercises muscles obj g = Inr (take 6 shuffled, g2)"
    using assms p s by (auto simp: pick_exercises_def)
  ultimately show ?thesis using d by blast
qed

lemma pick_exercises_cardio:
  assumes "obj \<noteq> ''hipertrofia''" "obj \<noteq> ''forca''"
  shows "\<exists>ys g'. pick_exercises muscles obj g = Inr (ys, g') \<and> length ys = 5
           \<and> mset ys \<subseteq># mset cardio_exercises"
proof -
  have "5 \<le> length cardio_exercises" by (simp add: cardio_exercises_def)
  from random_sample_ok [OF this, of g] show ?thesis
    using assms by (simp add: pick_exercises_def)
qed

lemma length_splits:
  "length hypertrophy_splits = 6" "length strength_splits = 4"
  "length conditioning_splits = 4" "length emagrecimento_splits = 4"
  by (simp_all add: hypertrophy_splits_def strength_splits_def conditioning_splits_def
      emagrecimento_splits_def)

lemma select_split_eq:
  "select_split goal k = Inr (goal_splits goal ! (k mod length (goal_splits goal)))"
  by (simp add: select_split_def goal_splits_def list_get_def length_splits)

lemma make_session_ok:
  "\<exists>s g'. make_session goal day k g = Inr (s, g')"
proof -
  let ?muscles = "split_muscles (goal_splits goal ! (k mod length (goal_splits goal)))"
  have "\<exists>exs g'. pick_exercises ?muscles goal g = Inr (exs, g')"
  proof (cases "goal = ''hipertrofia'' \<or> goal = ''forca''")
    case True
    from pick_exercises_muscle [OF this, of ?muscles g] show ?thesis by blast
  next
    case False
    then have "goal \<noteq> ''hipertrofia''" "goal \<noteq> ''forca''" by auto
    from pick_exercises_cardio [OF this, of ?muscles g] show ?thesis by blast
  qed
  then obtain exs g' where "pick_exercises ?muscles goal g = Inr (exs, g')" by blast
  then show ?thesis by (simp add: make_session_def select_split_eq)
qed

lemma day_loop_ok:
  "\<exists>new g'. day_loop goal days sg ws g = Inr (ws @ new, sg + length new, g')
     \<and> length new = min (length days) (total_sessions - sg)
     \<and> (\<forall>i<length new. session_of goal (days ! i) (sg + i) (new ! i))"
proof (induction days arbitrary: sg ws g)
  case Nil
  then show ?case by simp
next
  case (Cons day days)
  show ?case
  proof (cases "sg \<ge> total_sessions")
    case True
    then show ?thesis by simp
  next
    case False
    obtain s g1 where m: "make_session goal day sg g = Inr (s, g1)"
      using make_session_ok by blast
    from Cons.IH [of "sg + 1" "ws @ [s]" g1] obtain new g' where
      d: "day_loop goal days (sg + 1) (ws @ [s]) g1 = Inr ((ws @ [s]) @ new, sg + 1 + length new, g')"
      and l: "length new = min (length days) (total_sessions - (sg + 1))"
      and a: "\<forall>i<length new. session_of goal (days ! i) (sg + 1 + i) (new ! i)" by blast
    have 1: "day_loop goal (day # days) sg ws g = Inr (ws @ (s # new), sg + length (s # new), g')"
      using False m d by simp
    have 2: "length (s # new) = min (length (day # days)) (total_sessions - sg)"
      using False l by simp
    have 3: "\<forall>i<length (s # new). session_of goal ((day # days) ! i) (sg + i) ((s # new) ! i)"
    proof (intro allI impI)
      fix i assume i: "i < length (s # new)"
      show "session_of goal ((day # days) ! i) (sg + i) ((s # new) ! i)"
      proof (cases i)
        case 0
        then show ?thesis using m by (auto simp: session_of_def)
      next
        case (Suc j)
        then show ?thesis using a i by simp
      qed
    qed
    from 1 2 3 show ?thesis by blast
  qed
qed

lemma week_loop_ok:
  assumes "1 \<le> freq" "length wns = Suc n"
    and "sg + n * nat freq < total_sessions" "total_sessions \<le> sg + Suc n * nat freq"
  shows "\<exists>new g'. week_loop goal freq wns sg tw g = Inr (tw @ new, total_sessions, g')
     \<and> map week_num new = wns
     \<and> map (\<lambda>w. length (week_sessions w)) new
          = replicate n (nat freq) @ [total_sessions - sg - n * nat freq]
     \<and> length (concat (map week_sessions new)) = total_sessions - sg
     \<and> (\<forall>i<total_sessions - sg. \<exists>day\<in>{1..freq}.
           session_of goal day (sg + i) (concat (map week_sessions new) ! i))"
  using assms
proof (induction n arbitrary: wns sg tw g)
  case 0
  then obtain wn where wns: "wns = [wn]" by (cases wns) auto
  from day_loop_ok [of goal "[1..freq]" sg "[]" g] obtain ds g1 where
    d: "day_loop goal [1..freq] sg [] g = Inr (ds, sg + length ds, g1)"
    and l: "length ds = min (length [1..freq]) (total_sessions - sg)"
    and a: "\<forall>i<length ds. session_of goal ([1..freq] ! i) (sg + i) (ds ! i)" by auto
  have len: "length ds = total_sessions - sg" using l 0 by simp
  let ?w = "\<lparr>week_num = wn, week_focus = ''Semana de '' @ goal, week_sessions = ds\<rparr>"
  have 1: "week_loop goal freq wns sg tw g = Inr (tw @ [?w], total_sessions, g1)"
    using d len 0 wns by simp
  have 2: "\<forall>i<total_sessions - sg. \<exists>day\<in>{1..freq}. session_of goal day (sg + i) (ds ! i)"
  proof (intro allI impI)
    fix i assume "i < total_sessions - sg"
    with len l have i: "i < length ds" "i < length [1..freq]" by auto
    then have "[1..freq] ! i \<in> set [1..freq]" by (meson nth_mem)
    then show "\<exists>day\<in>{1..freq}. session_of goal day (sg + i) (ds ! i)"
      using a i by auto
  qed
  show ?case
    using 1 2 len wns by (intro exI [of _ "[?w]"] exI [of _ g1]) simp
next
  case (Suc n)
  then obtain wn rest where wns: "wns = wn # rest" and rest: "length rest = Suc n"
    by (cases wns) auto
  from day_loop_ok [of goal "[1..freq]" sg "[]" g] obtain ds g1 where
    d: "day_loop goal [1..freq] sg [] g = Inr (ds, sg + length ds, g1)"
    and l: "length ds = min (length [1..freq]) (total_sessions - sg)"
    and a: "\<forall>i<length ds. session_of goal ([1..freq] ! i) (sg + i) (ds ! i)" by auto
  have len: "length ds = nat freq" using l Suc.prems by simp
  let ?w = "\<lparr>week_num = wn, week_focus = ''Semana de '' @ goal, week_sessions = ds\<rparr>"
  let ?sg = "sg + nat freq"
  have lt: "?sg < total_sessions" using Suc.prems by simp
  have p1: "?sg + n * nat freq < total_sessions" using Suc.prems by (simp add: algebra_simps)
  have p2: "total_sessions \<le> ?sg + Suc n * nat freq" using Suc.prems by (simp add: algebra_simps)
  from Suc.IH [OF Suc.prems(1) rest p1 p2, of "tw @ [?w]" g1] obtain new g' where
    w: "week_loop goal freq rest ?sg (tw @ [?w]) g1 = Inr ((tw @ [?w]) @ new, total_sessions, g')"
    and n1: "map week_num new = rest"
    and n2: "map (\<lambda>w. length (week_sessions w)) new
          = replicate n (nat freq) @ [total_sessions - ?sg - n * nat freq]"
    and n3: "length (concat (map week_sessions new)) = total_sessions - ?sg"
    and n4: "\<forall>i<total_sessions - ?sg. \<exists>day\<in>{1..freq}.
           session_of goal day (?sg + i) (concat (map week_sessions new) ! i)" by blast
  have 1: "week_loop goal freq wns sg tw g = Inr (tw @ (?w # new), total_sessions, g')"
    using d len lt w wns by simp
  have 2: "map (\<lambda>w. length (week_sessions w)) (?w # new)
          = replicate (Suc n) (nat freq) @ [total_sessions - sg - Suc n * nat freq]"
    using n2 len by (simp add: algebra_simps)
  have 3: "length (concat (map week_sessions (?w # new))) = total_sessions - sg"
    using n3 len lt by simp
  have 4: "\<forall>i<total_sessions - sg. \<exists>day\<in>{1..freq}.
           session_of goal day (sg + i) (concat (map week_sessions (?w # new)) ! i)"
  proof (intro allI impI)
    fix i assume i: "i < total_sessions - sg"
    show "\<exists>day\<in>{1..freq}. session_of goal day (sg + i) (concat (map week_sessions (?w # new)) ! i)"
    proof (cases "i < nat freq")
      case True
      with len l have i': "i < length ds" "i < length [1..freq]" by auto
      then have "[1..freq] ! i \<in> set [1..freq]" by (meson nth_mem)
      then show ?thesis using a i' by (auto simp: nth_append)
    next
      case False
      then have "i - nat freq < total_sessions - ?sg" using i by simp
      with n4 obtain day where "day \<in> {1..freq}"
        "session_of goal day (?sg + (i - nat freq)) (concat (map week_sessions new) ! (i - nat freq))"
        by blast
      then show ?thesis using False len by (auto simp: nth_append)
    qed
  qed
  show ?case
    using 1 2 3 4 n1 wns by (intro exI [of _ "?w # new"] exI [of _ g']) simp
qed

lemma weeks_bounds:
  fixes f :: int
  assumes "1 \<le> f"
  defines "w \<equiv> (12 + f - 1) div f"
  shows "1 \<le> w" "(w - 1) * f < 12" "12 \<le> w * f"
proof -
  have e: "f * w + (12 + f - 1) mod f = 12 + f - 1"
    unfolding w_def by (rule mult_div_mod_eq)
  have m: "0 \<le> (12 + f - 1) mod f" "(12 + f - 1) mod f < f"
    using assms by simp_all
  from e m show 2: "(w - 1) * f < 12" by (simp add: algebra_simps)
  from e m show 3: "12 \<le> w * f" by (simp add: algebra_simps)
  show "1 \<le> w"
  proof (rule ccontr)
    assume "\<not> 1 \<le> w"
    then have "w \<le> 0" by simp
    then have "w * f \<le> 0" using assms by (simp add: mult_nonpos_nonneg)
    with 3 show False by simp
  qed
qed

lemma generate_plan_ok:
  assumes f: "1 \<le> training_frequency up"
  shows "\<exists>p g'. generate_plan up an g = Inr (p, g')
     \<and> macrocycle_length_weeks (plan_overview p) = (12 + training_frequency up - 1) div training_frequency up
     \<and> map week_num (training_weeks p) = [1..(12 + training_frequency up - 1) div training_frequency up]
     \<and> map int (session_counts p)
          = replicate (nat ((12 + training_frequency up - 1) div training_frequency up - 1)) (training_frequency up)
            @ [12 - training_frequency up * ((12 + training_frequency up - 1) div training_frequency up - 1)]
     \<and> length (all_sessions p) = 12
     \<and> (\<forall>k<12. \<exists>day\<in>{1..training_frequency up}.
           session_of (primary_goal up) day k (all_sessions p ! k))"
proof -
  define fr where "fr = training_frequency up"
  define w where "w = (12 + fr - 1) div fr"
  define n where "n = nat (w - 1)"
  have fr: "1 \<le> fr" using f by (simp add: fr_def)
  note wb = weeks_bounds [OF fr, folded w_def]
  have len: "length [1..w] = Suc n" using wb(1) by (simp add: n_def)
  have "int (n * nat fr) = (w - 1) * fr" using wb(1) fr by (simp add: n_def)
  then have c1: "0 + n * nat fr < total_sessions"
    using wb(2) unfolding total_sessions_def by linarith
  have "int (Suc n * nat fr) = w * fr" using wb(1) fr by (simp add: n_def algebra_simps)
  then have c2: "total_sessions \<le> 0 + Suc n * nat fr"
    using wb(3) unfolding total_sessions_def by linarith
  from week_loop_ok [OF fr len c1 c2, of "primary_goal up" "[]" g] obtain new g' where
    wl: "week_loop (primary_goal up) fr [1..w] 0 [] g = Inr (new, total_sessions, g')"
    and n1: "map week_num new = [1..w]"
    and n2: "map (\<lambda>w. length (week_sessions w)) new
          = replicate n (nat fr) @ [total_sessions - 0 - n * nat fr]"
    and n3: "length (concat (map week_sessions new)) = total_sessions - 0"
    and n4: "\<forall>i<total_sessions - 0. \<exists>day\<in>{1..fr}.
           session_of (primary_goal up) day (0 + i) (concat (map week_sessions new) ! i)"
    by auto
  have last: "int (total_sessions - 0 - n * nat fr) = 12 - fr * (w - 1)"
    using c1 \<open>int (n * nat fr) = (w - 1) * fr\<close> by (simp add: total_sessions_def algebra_simps)
  have cnt: "map int (map (\<lambda>w. length (week_sessions w)) new)
               = replicate n fr @ [12 - fr * (w - 1)]"
    using fr last by (simp add: n2 map_replicate_const del: of_nat_diff of_nat_mult)
  obtain p where p: "generate_plan up an g = Inr (p, g')" "training_weeks p = new"
    "macrocycle_length_weeks (plan_overview p) = w"
    using wl fr by (simp add: generate_plan_def Let_def fr_def w_def total_sessions_def)
  have weq: "(11 + fr) div fr = w" by (simp add: w_def)
  show ?thesis
    using p n1 cnt n3 n4
    by (intro exI [of _ p] exI [of _ g'])
       (simp add: session_counts_def all_sessions_def fr_def [symmetric] weq
         n_def [symmetric] total_sessions_def)
qed

lemma rx_exercise_prescribe: "rx_exercise (prescribe goal ex) = ex"
  by (simp add: prescribe_def)

lemma mset_subset_set: "mset xs \<subseteq># mset ys \<Longrightarrow> set xs \<subseteq> set ys"
  by (metis set_mset_mono set_mset_mset)

lemma make_session_InrD:
  assumes "make_session goal day k g = Inr (s, g')"
  shows "\<exists>exs. pick_exercises (split_muscles (split_at goal k)) goal g = Inr (exs, g')
           \<and> s = \<lparr>sess_day = day, sess_name = split_name (split_at goal k),
                   sess_focus = split_focus (split_at goal k), sess_resumo = [],
                   sess_exercises = map (prescribe goal) exs,
                   sess_conditioning = None, sess_mobility = None, sess_progression = None\<rparr>"
proof (cases "pick_exercises (split_muscles (split_at goal k)) goal g")
  case (Inl e)
  with assms show ?thesis by (simp add: make_session_def select_split_eq split_at_def)
next
  case (Inr r)
  obtain exs g1 where "r = (exs, g1)" by (cases r)
  with Inr assms show ?thesis
    by (auto simp: make_session_def select_split_eq split_at_def)
qed

lemma session_of_split:
  assumes "session_of goal day k s"
  shows "sess_day s = day" "sess_name s = split_name (split_at goal k)"
    "sess_focus s = split_focus (split_at goal k)"
    "sess_exercises s = map (prescribe goal) (exercise_names s)"
proof -
  from assms obtain g g' where "make_session goal day k g = Inr (s, g')"
    by (auto simp: session_of_def)
  from make_session_InrD [OF this] obtain exs where
    s: "s = \<lparr>sess_day = day, sess_name = split_name (split_at goal k),
                   sess_focus = split_focus (split_at goal k), sess_resumo = [],
                   sess_exercises = map (prescribe goal) exs,
                   sess_conditioning = None, sess_mobility = None, sess_progression = None\<rparr>"
    by blast
  show "sess_day s = day" "sess_name s = split_name (split_at goal k)"
    "sess_focus s = split_focus (split_at goal k)"
    "sess_exercises s = map (prescribe goal) (exercise_names s)"
    by (simp_all add: s exercise_names_def rx_exercise_prescribe comp_def)
qed

lemma session_of_muscle:
  assumes "session_of goal day k s" "muscle_goal goal"
  shows "\<exists>parts shuffled. exercise_names s = take 6 shuffled
           \<and> mset shuffled = mset (concat parts)
           \<and> list_all2 drawn_from (split_muscles (split_at goal k)) parts"
proof -
  from assms(1) obtain g g' where
    m: "make_session goal day k g = Inr (s, g')" by (auto simp: session_of_def)
  from assms(2) have "goal = ''hipertrofia'' \<or> goal = ''forca''" by (simp add: muscle_goal_def)
  from pick_exercises_muscle [OF this, of "split_muscles (split_at goal k)" g]
  obtain parts shuffled g1 where
    p: "pick_exercises (split_muscles (split_at goal k)) goal g = Inr (take 6 shuffled, g1)"
    and r: "mset shuffled = mset (concat parts)"
      "list_all2 drawn_from (split_muscles (split_at goal k)) parts" by blast
  from m p have "exercise_names s = take 6 shuffled"
    by (auto simp: make_session_def select_split_eq split_at_def exercise_names_def
        rx_exercise_prescribe comp_def)
  with r show ?thesis by blast
qed

lemma session_of_cardio:
  assumes "session_of goal day k s" "\<not> muscle_goal goal"
  shows "length (exercise_names s) = 5" "mset (exercise_names s) \<subseteq># mset cardio_exercises"
proof -
  from assms(1) obtain g g' where
    m: "make_session goal day k g = Inr (s, g')" by (auto simp: session_of_def)
  from assms(2) have "goal \<noteq> ''hipertrofia''" "goal \<noteq> ''forca''"
    by (simp_all add: muscle_goal_def)
  from pick_exercises_cardio [OF this, of "split_muscles (split_at goal k)" g]
  obtain ys g1 where
    p: "pick_exercises (split_muscles (split_at goal k)) goal g = Inr (ys, g1)"
    and r: "length ys = 5" "mset ys \<subseteq># mset cardio_exercises" by blast
  from m p have "exercise_names s = ys"
    by (auto simp: make_session_def select_split_eq split_at_def exercise_names_def
        rx_exercise_prescribe comp_def)
  with r show "length (exercise_names s) = 5" "mset (exercise_names s) \<subseteq># mset cardio_exercises"
    by simp_all
qed

lemma split_at_mem: "split_at goal k \<in> set (goal_splits goal)"
  unfolding split_at_def
  by (rule nth_mem) (simp add: goal_splits_def length_splits)

lemma exercise_dict_get_simps:
  "length (exercise_dict_get ''chest'') = 5" "length (exercise_dict_get ''triceps'') = 5"
  "length (exercise_dict_get ''back'') = 5" "length (exercise_dict_get ''biceps'') = 5"
  "length (exercise_dict_get ''legs'') = 6" "length (exercise_dict_get ''shoulders'') = 5"
  "length (exercise_dict_get ''glutes'') = 5" "length (exercise_dict_get ''abs'') = 5"
  by (simp_all add: exercise_dict_get_def exercise_dict_def)

lemma muscle_split_catalogue:
  assumes "muscle_goal goal" "sp \<in> set (goal_splits goal)"
  shows "split_muscles sp \<noteq> []" "\<forall>m\<in>set (split_muscles sp). 2 \<le> length (exercise_dict_get m)"
  using assms
  by (auto simp: muscle_goal_def goal_splits_def hypertrophy_splits_def strength_splits_def
      exercise_dict_get_simps)

lemma drawn_parts_set:
  assumes "list_all2 drawn_from muscles parts" "e \<in> set (concat parts)"
  shows "\<exists>m\<in>set muscles. e \<in> set (exercise_dict_get m)"
  using assms
proof (induction muscles parts rule: list_all2_induct)
  case Nil
  then show ?case by simp
next
  case (Cons m ms part parts)
  show ?case
  proof (cases "e \<in> set part")
    case True
    moreover from Cons.hyps(1) have "set part \<subseteq> set (exercise_dict_get m)"
      by (simp add: drawn_from_def mset_subset_set)
    ultimately show ?thesis by auto
  next
    case False
    with Cons show ?thesis by auto
  qed
qed

lemma session_of_count_muscle:
  assumes "session_of goal day k s" "muscle_goal goal"
  shows "1 \<le> length (sess_exercises s)" "length (sess_exercises s) \<le> 6"
proof -
  from session_of_muscle [OF assms] obtain parts shuffled where
    n: "exercise_names s = take 6 shuffled" and ms: "mset shuffled = mset (concat parts)"
    and d: "list_all2 drawn_from (split_muscles (split_at goal k)) parts" by blast
  have len: "length (sess_exercises s) = length (exercise_names s)"
    by (simp add: exercise_names_def)
  from n len show "length (sess_exercises s) \<le> 6" by simp
  from muscle_split_catalogue [OF assms(2) split_at_mem [of goal k]]
  obtain m ms' where mm: "split_muscles (split_at goal k) = m # ms'"
    and two: "2 \<le> length (exercise_dict_get m)"
    by (cases "split_muscles (split_at goal k)") auto
  with d obtain part parts' where "parts = part # parts'" "drawn_from m part"
    by (auto simp: list_all2_Cons1)
  with two have "2 \<le> length (concat parts)" by (simp add: drawn_from_def)
  moreover have "length shuffled = length (concat parts)"
    using ms by (metis size_mset)
  ultimately show "1 \<le> length (sess_exercises s)" using n len by simp
qed

lemma session_of_members:
  assumes "session_of goal day k s" "e \<in> set (exercise_names s)"
  shows "if muscle_goal goal
         then \<exists>m\<in>set (split_muscles (split_at goal k)). e \<in> set (exercise_dict_get m)
         else e \<in> set cardio_exercises"
proof (cases "muscle_goal goal")
  case True
  from session_of_muscle [OF assms(1) True] obtain parts shuffled where
    n: "exercise_names s = take 6 shuffled" and ms: "mset shuffled = mset (concat parts)"
    and d: "list_all2 drawn_from (split_muscles (split_at goal k)) parts" by blast
  from assms(2) n have "e \<in> set shuffled" by (auto dest: in_set_takeD)
  with ms have "e \<in> set (concat parts)" by (metis set_mset_mset)
  from drawn_parts_set [OF d this] True show ?thesis by simp
next
  case False
  from mset_subset_set [OF session_of_cardio(2) [OF assms(1) False]] assms(2) False
  show ?thesis by auto
qed

section \<open>Properties of the scheduler\<close>

lemma sum_session_counts: "sum_list (session_counts p) = length (all_sessions p)"
  by (simp add: session_counts_def all_sessions_def length_concat comp_def)

lemma weeks_beyond_twelve:
  fixes f :: int
  assumes "12 < f"
  shows "(12 + f - 1) div f = 1"
proof -
  have "(f + 11) div f = 11 div f + 1" using assms by simp
  moreover have "11 div f = 0" using assms by (simp add: div_pos_pos_trivial)
  ultimately show ?thesis by (simp add: add.commute)
qed

text \<open>
  Claim C1. For every goal string and every training frequency from 1 to 7,
  \<^verbatim>\<open>generate_plan\<close> returns a plan whose session counts, summed over all weeks, are
  exactly 12; for every frequency above 12 the plan has one week and at most 12
  sessions. This holds for every state of the random generator.
\<close>

theorem C1_total_sessions:
  "(1 \<le> training_frequency up \<and> training_frequency up \<le> 7 \<longrightarrow>
      (\<exists>p g'. generate_plan up an g = Inr (p, g') \<and> sum_list (session_counts p) = 12))
   \<and> (12 < training_frequency up \<longrightarrow>
      (\<exists>p g'. generate_plan up an g = Inr (p, g')
         \<and> macrocycle_length_weeks (plan_overview p) = 1
         \<and> length (training_weeks p) = 1
         \<and> sum_list (session_counts p) \<le> 12))"
proof (intro conjI impI)
  assume "1 \<le> training_frequency up \<and> training_frequency up \<le> 7"
  then have "1 \<le> training_frequency up" by simp
  from generate_plan_ok [OF this, of an g]
  show "\<exists>p g'. generate_plan up an g = Inr (p, g') \<and> sum_list (session_counts p) = 12"
    by (auto simp: sum_session_counts)
next
  assume f: "12 < training_frequency up"
  then have "1 \<le> training_frequency up" by simp
  from generate_plan_ok [OF this, of an g] obtain p g' where
    p: "generate_plan up an g = Inr (p, g')"
    and w: "macrocycle_length_weeks (plan_overview p)
              = (12 + training_frequency up - 1) div training_frequency up"
    and n: "map week_num (training_weeks p)
              = [1..(12 + training_frequency up - 1) div training_frequency up]"
    and l: "length (all_sessions p) = 12" by blast
  have "length (map week_num (training_weeks p)) = 1"
    unfolding n weeks_beyond_twelve [OF f] by simp
  then have "length (training_weeks p) = 1" by simp
  with p w l weeks_beyond_twelve [OF f]
  show "\<exists>p g'. generate_plan up an g = Inr (p, g')
         \<and> macrocycle_length_weeks (plan_overview p) = 1
         \<and> length (training_weeks p) = 1
         \<and> sum_list (session_counts p) \<le> 12"
    by (auto simp: sum_session_counts)
qed

theorem C1_total_sessions_witness:
  "(\<exists>p g'. generate_plan (example_profile ''emagrecimento'' 7) (example_analytics ''emagrecimento'')
              example_rng = Inr (p, g') \<and> sum_list (session_counts p) = 12)
   \<and> (\<exists>p g'. generate_plan (example_profile ''forca'' 13) (example_analytics ''forca'')
              example_rng = Inr (p, g')
         \<and> macrocycle_length_weeks (plan_overview p) = 1
         \<and> length (training_weeks p) = 1
         \<and> sum_list (session_counts p) \<le> 12)"
  using C1_total_sessions [of "example_profile ''emagrecimento'' 7"
      "example_analytics ''emagrecimento''" example_rng]
    C1_total_sessions [of "example_profile ''forca'' 13" "example_analytics ''forca''" example_rng]
  by (simp add: example_profile_def)

lemma weeks_ceiling:
  fixes f :: int
  assumes "1 \<le> f"
  shows "\<lceil>12 / real_of_int f\<rceil> = (12 + f - 1) div f"
proof (rule ceiling_unique)
  let ?w = "(12 + f - 1) div f"
  note wb = weeks_bounds [OF assms]
  have fpos: "0 < real_of_int f" using assms by simp
  have "real_of_int ((?w - 1) * f) < 12" using wb(2) by linarith
  then have "(real_of_int ?w - 1) * real_of_int f < 12" by simp
  then show "real_of_int ?w - 1 < 12 / real_of_int f"
    using fpos by (simp add: pos_less_divide_eq)
  have "12 \<le> real_of_int (?w * f)" using wb(3) by linarith
  then have "12 \<le> real_of_int ?w * real_of_int f" by simp
  then show "12 / real_of_int f \<le> real_of_int ?w"
    using fpos by (simp add: pos_divide_le_eq)
qed

text \<open>
  Claim C2. For every training frequency \<open>f \<ge> 1\<close>, \<^verbatim>\<open>generate_plan\<close> returns
  \<open>\<lceil>12 / f\<rceil>\<close> weeks; every week but the last has \<open>f\<close> sessions and the last has
  \<open>12 - f * (weeks - 1)\<close> sessions, a number between 0 and \<open>f\<close>. The witness gives the
  two scenarios: frequency 3 yields 4 weeks of 3, 3, 3, 3 sessions and frequency 5 yields
  3 weeks of 5, 5, 2 sessions.
\<close>

theorem C2_week_distribution:
  assumes "1 \<le> training_frequency up"
  shows "\<exists>p g'. generate_plan up an g = Inr (p, g')
     \<and> macrocycle_length_weeks (plan_overview p) = \<lceil>12 / real_of_int (training_frequency up)\<rceil>
     \<and> int (length (training_weeks p)) = \<lceil>12 / real_of_int (training_frequency up)\<rceil>
     \<and> map int (session_counts p)
          = replicate (nat (\<lceil>12 / real_of_int (training_frequency up)\<rceil> - 1)) (training_frequency up)
            @ [12 - training_frequency up * (\<lceil>12 / real_of_int (training_frequency up)\<rceil> - 1)]
     \<and> 0 \<le> 12 - training_frequency up * (\<lceil>12 / real_of_int (training_frequency up)\<rceil> - 1)
     \<and> 12 - training_frequency up * (\<lceil>12 / real_of_int (training_frequency up)\<rceil> - 1)
          \<le> training_frequency up"
proof -
  let ?f = "training_frequency up"
  let ?w = "(12 + ?f - 1) div ?f"
  note wb = weeks_bounds [OF assms]
  from generate_plan_ok [OF assms, of an g] obtain p g' where
    p: "generate_plan up an g = Inr (p, g')"
    and w: "macrocycle_length_weeks (plan_overview p) = ?w"
    and n: "map week_num (training_weeks p) = [1..?w]"
    and c: "map int (session_counts p) = replicate (nat (?w - 1)) ?f @ [12 - ?f * (?w - 1)]"
    by blast
  have "length (map week_num (training_weeks p)) = nat ?w" unfolding n using wb(1) by simp
  then have len: "int (length (training_weeks p)) = ?w" using wb(1) by simp
  have lo: "0 \<le> 12 - ?f * (?w - 1)" using wb(2) by (simp add: algebra_simps)
  have hi: "12 - ?f * (?w - 1) \<le> ?f" using wb(3) by (simp add: algebra_simps)
  show ?thesis
    unfolding weeks_ceiling [OF assms]
    using p w len c lo hi by blast
qed

theorem C2_week_distribution_witness:
  "(\<exists>p g'. generate_plan (example_profile ''hipertrofia'' 3) (example_analytics ''hipertrofia'')
              example_rng = Inr (p, g')
       \<and> macrocycle_length_weeks (plan_overview p) = 4 \<and> session_counts p = [3, 3, 3, 3])
   \<and> (\<exists>p g'. generate_plan (example_profile ''forca'' 5) (example_analytics ''forca'')
              example_rng = Inr (p, g')
       \<and> macrocycle_length_weeks (plan_overview p) = 3 \<and> session_counts p = [5, 5, 2])"
proof -
  have c3: "\<lceil>12 / real_of_int 3\<rceil> = 4" by simp
  have c5: "\<lceil>12 / real_of_int 5\<rceil> = 3" by (simp add: ceiling_eq_iff)
  have m: "\<And>xs ys. map int xs = map int ys \<Longrightarrow> xs = ys"
    by (metis inj_map_eq_map inj_of_nat)
  have r3: "replicate (nat (4 - 1)) (3::int) @ [12 - 3 * (4 - 1)] = map int [3, 3, 3, 3]"
    by (simp add: numeral_3_eq_3)
  have r5: "replicate (nat (3 - 1)) (5::int) @ [12 - 5 * (3 - 1)] = map int [5, 5, 2]"
    by (simp add: numeral_2_eq_2)
  have t3: "training_frequency (example_profile ''hipertrofia'' 3) = 3"
    and t5: "training_frequency (example_profile ''forca'' 5) = 5"
    by (simp_all add: example_profile_def)
  from C2_week_distribution [of "example_profile ''hipertrofia'' 3"
      "example_analytics ''hipertrofia''" example_rng]
  have A: "\<exists>p g'. generate_plan (example_profile ''hipertrofia'' 3) (example_analytics ''hipertrofia'')
              example_rng = Inr (p, g')
       \<and> macrocycle_length_weeks (plan_overview p) = 4 \<and> session_counts p = [3, 3, 3, 3]"
    unfolding t3 c3 r3 by (auto dest: m)
  from C2_week_distribution [of "example_profile ''forca'' 5"
      "example_analytics ''forca''" example_rng]
  have B: "\<exists>p g'. generate_plan (example_profile ''forca'' 5) (example_analytics ''forca'')
              example_rng = Inr (p, g')
       \<and> macrocycle_length_weeks (plan_overview p) = 3 \<and> session_counts p = [5, 5, 2]"
    unfolding t5 c5 r5 by (auto dest: m)
  from A B show ?thesis by blast
qed

text \<open>
  Claim C4. The split of the \<open>k\<close>-th session of the whole plan (counted from 0 across
  the weeks) is the element of the goal's split list at index \<open>k\<close> modulo the length of
  that list, whatever the week boundaries are: the session carries that split's name and
  focus.
\<close>

theorem C4_split_cycle:
  assumes "1 \<le> training_frequency up"
  shows "\<exists>p g'. generate_plan up an g = Inr (p, g') \<and> length (all_sessions p) = 12
     \<and> (\<forall>k<12.
          sess_name (all_sessions p ! k)
            = split_name (goal_splits (primary_goal up) ! (k mod length (goal_splits (primary_goal up))))
        \<and> sess_focus (all_sessions p ! k)
            = split_focus (goal_splits (primary_goal up) ! (k mod length (goal_splits (primary_goal up)))))"
proof -
  from generate_plan_ok [OF assms, of an g] obtain p g' where
    p: "generate_plan up an g = Inr (p, g')" and l: "length (all_sessions p) = 12"
    and s: "\<forall>k<12. \<exists>day\<in>{1..training_frequency up}.
              session_of (primary_goal up) day k (all_sessions p ! k)" by blast
  have "\<forall>k<12.
          sess_name (all_sessions p ! k) = split_name (split_at (primary_goal up) k)
        \<and> sess_focus (all_sessions p ! k) = split_focus (split_at (primary_goal up) k)"
    using s session_of_split(2,3) by blast
  with p l show ?thesis unfolding split_at_def by blast
qed

theorem C4_split_cycle_witness:
  "\<exists>p g'. generate_plan (example_profile ''hipertrofia'' 5) (example_analytics ''hipertrofia'')
            example_rng = Inr (p, g')
     \<and> length (all_sessions p) = 12
     \<and> sess_name (all_sessions p ! 7) = ''Treino B - Costas e B'' @ u_iacute @ ''ceps''
     \<and> sess_focus (all_sessions p ! 7) = ''Costas e B'' @ u_iacute @ ''ceps''"
proof -
  have f: "1 \<le> training_frequency (example_profile ''hipertrofia'' 5)"
    by (simp add: example_profile_def)
  have g: "primary_goal (example_profile ''hipertrofia'' 5) = ''hipertrofia''"
    by (simp add: example_profile_def)
  have s: "goal_splits ''hipertrofia'' ! (7 mod length (goal_splits ''hipertrofia''))
             = \<lparr>split_name = ''Treino B - Costas e B'' @ u_iacute @ ''ceps'',
                split_muscles = [''back'', ''biceps''],
                split_focus = ''Costas e B'' @ u_iacute @ ''ceps''\<rparr>"
    by (simp add: goal_splits_def hypertrophy_splits_def)
  from C4_split_cycle [OF f, of "example_analytics ''hipertrofia''" example_rng]
  obtain p g' where
    p: "generate_plan (example_profile ''hipertrofia'' 5) (example_analytics ''hipertrofia'')
            example_rng = Inr (p, g')" "length (all_sessions p) = 12"
    and a: "\<forall>k<12.
          sess_name (all_sessions p ! k)
            = split_name (goal_splits ''hipertrofia'' ! (k mod length (goal_splits ''hipertrofia'')))
        \<and> sess_focus (all_sessions p ! k)
            = split_focus (goal_splits ''hipertrofia'' ! (k mod length (goal_splits ''hipertrofia'')))"
    unfolding g by blast
  have "(7::nat) < 12" by simp
  with a have "sess_name (all_sessions p ! 7)
            = split_name (goal_splits ''hipertrofia'' ! (7 mod length (goal_splits ''hipertrofia'')))
        \<and> sess_focus (all_sessions p ! 7)
            = split_focus (goal_splits ''hipertrofia'' ! (7 mod length (goal_splits ''hipertrofia'')))"
    by blast
  with p show ?thesis unfolding s by auto
qed

text \<open>
  Claim C5. For every outcome of the random choices, a session of a
  \<^verbatim>\<open>hipertrofia\<close> or \<^verbatim>\<open>forca\<close> plan has between 1 and 6 exercises: its names are the
  first 6 of a rearrangement of draws without replacement of at most 2 exercises per
  muscle group of the split. A session of an \<^verbatim>\<open>emagrecimento\<close> or
  \<^verbatim>\<open>condicionamento\<close> plan has exactly 5 exercises, drawn without replacement from the
  cardio list.
\<close>

theorem C5_exercise_counts:
  assumes "1 \<le> training_frequency up"
  shows "\<exists>p g'. generate_plan up an g = Inr (p, g') \<and> length (all_sessions p) = 12
     \<and> (\<forall>k<12.
          (primary_goal up = ''hipertrofia'' \<or> primary_goal up = ''forca'' \<longrightarrow>
             1 \<le> length (sess_exercises (all_sessions p ! k))
           \<and> length (sess_exercises (all_sessions p ! k)) \<le> 6
           \<and> (\<exists>parts shuffled.
                 list_all2 drawn_from
                   (split_muscles (goal_splits (primary_goal up)
                      ! (k mod length (goal_splits (primary_goal up))))) parts
               \<and> mset shuffled = mset (concat parts)
               \<and> exercise_names (all_sessions p ! k) = take 6 shuffled))
        \<and> (primary_goal up = ''emagrecimento'' \<or> primary_goal up = ''condicionamento'' \<longrightarrow>
             length (sess_exercises (all_sessions p ! k)) = 5
           \<and> mset (exercise_names (all_sessions p ! k)) \<subseteq># mset cardio_exercises))"
proof -
  let ?goal = "primary_goal up"
  from generate_plan_ok [OF assms, of an g] obtain p g' where
    p: "generate_plan up an g = Inr (p, g')" and l: "length (all_sessions p) = 12"
    and s: "\<forall>k<12. \<exists>day\<in>{1..training_frequency up}.
              session_of ?goal day k (all_sessions p ! k)" by blast
  have "\<forall>k<12.
          (?goal = ''hipertrofia'' \<or> ?goal = ''forca'' \<longrightarrow>
             1 \<le> length (sess_exercises (all_sessions p ! k))
           \<and> length (sess_exercises (all_sessions p ! k)) \<le> 6
           \<and> (\<exists>parts shuffled.
                 list_all2 drawn_from (split_muscles (split_at ?goal k)) parts
               \<and> mset shuffled = mset (concat parts)
               \<and> exercise_names (all_sessions p ! k) = take 6 shuffled))
        \<and> (?goal = ''emagrecimento'' \<or> ?goal = ''condicionamento'' \<longrightarrow>
             length (sess_exercises (all_sessions p ! k)) = 5
           \<and> mset (exercise_names (all_sessions p ! k)) \<subseteq># mset cardio_exercises)"
  proof (intro allI impI conjI)
    fix k :: nat assume "k < 12"
    with s obtain day where so: "session_of ?goal day k (all_sessions p ! k)" by blast
    {
      assume "?goal = ''hipertrofia'' \<or> ?goal = ''forca''"
      then have mg: "muscle_goal ?goal" by (simp add: muscle_goal_def)
      from session_of_count_muscle [OF so mg]
      show "1 \<le> length (sess_exercises (all_sessions p ! k))"
        "length (sess_exercises (all_sessions p ! k)) \<le> 6" .
      from session_of_muscle [OF so mg]
      show "\<exists>parts shuffled.
                 list_all2 drawn_from (split_muscles (split_at ?goal k)) parts
               \<and> mset shuffled = mset (concat parts)
               \<and> exercise_names (all_sessions p ! k) = take 6 shuffled" by blast
    }
    {
      assume "?goal = ''emagrecimento'' \<or> ?goal = ''condicionamento''"
      then have mg: "\<not> muscle_goal ?goal" by (auto simp: muscle_goal_def)
      from session_of_cardio [OF so mg]
      show "length (sess_exercises (all_sessions p ! k)) = 5"
        "mset (exercise_names (all_sessions p ! k)) \<subseteq># mset cardio_exercises"
        by (simp_all add: exercise_names_def)
    }
  qed
  with p l show ?thesis unfolding split_at_def by blast
qed

theorem C5_exercise_counts_witness:
  "(\<exists>p g'. generate_plan (example_profile ''forca'' 4) (example_analytics ''forca'')
              example_rng = Inr (p, g')
       \<and> 1 \<le> length (sess_exercises (all_sessions p ! 3))
       \<and> length (sess_exercises (all_sessions p ! 3)) \<le> 6)
   \<and> (\<exists>p g'. generate_plan (example_profile ''condicionamento'' 4)
              (example_analytics ''condicionamento'') example_rng = Inr (p, g')
       \<and> length (sess_exercises (all_sessions p ! 3)) = 5)"
proof -
  have f: "1 \<le> training_frequency (example_profile ''forca'' 4)"
    "1 \<le> training_frequency (example_profile ''condicionamento'' 4)"
    by (simp_all add: example_profile_def)
  have g: "primary_goal (example_profile ''forca'' 4) = ''forca''"
    "primary_goal (example_profile ''condicionamento'' 4) = ''condicionamento''"
    by (simp_all add: example_profile_def)
  have k: "(3::nat) < 12" by simp
  from C5_exercise_counts [OF f(1), of "example_analytics ''forca''" example_rng] k
  have A: "\<exists>p g'. generate_plan (example_profile ''forca'' 4) (example_analytics ''forca'')
              example_rng = Inr (p, g')
       \<and> 1 \<le> length (sess_exercises (all_sessions p ! 3))
       \<and> length (sess_exercises (all_sessions p ! 3)) \<le> 6"
    unfolding g by blast
  from C5_exercise_counts [OF f(2), of "example_analytics ''condicionamento''" example_rng] k
  have B: "\<exists>p g'. generate_plan (example_profile ''condicionamento'' 4)
              (example_analytics ''condicionamento'') example_rng = Inr (p, g')
       \<and> length (sess_exercises (all_sessions p ! 3)) = 5"
    unfolding g by blast
  from A B show ?thesis by blast
qed

text \<open>
  Claim C6. For every outcome of the random choices, every exercise name of a session
  belongs to the catalogue list of one of the muscle groups of the session's split or,
  for the goals without muscle groups, to the cardio list.
\<close>

theorem C6_exercise_membership:
  assumes "1 \<le> training_frequency up"
  shows "\<exists>p g'. generate_plan up an g = Inr (p, g') \<and> length (all_sessions p) = 12
     \<and> (\<forall>k<12. \<forall>e\<in>set (exercise_names (all_sessions p ! k)).
          if primary_goal up = ''hipertrofia'' \<or> primary_goal up = ''forca''
          then \<exists>m\<in>set (split_muscles (goal_splits (primary_goal up)
                          ! (k mod length (goal_splits (primary_goal up))))).
                  e \<in> set (exercise_dict_get m)
          else e \<in> set cardio_exercises)"
proof -
  let ?goal = "primary_goal up"
  from generate_plan_ok [OF assms, of an g] obtain p g' where
    p: "generate_plan up an g = Inr (p, g')" and l: "length (all_sessions p) = 12"
    and s: "\<forall>k<12. \<exists>day\<in>{1..training_frequency up}.
              session_of ?goal day k (all_sessions p ! k)" by blast
  have "\<forall>k<12. \<forall>e\<in>set (exercise_names (all_sessions p ! k)).
          if ?goal = ''hipertrofia'' \<or> ?goal = ''forca''
          then \<exists>m\<in>set (split_muscles (split_at ?goal k)). e \<in> set (exercise_dict_get m)
          else e \<in> set cardio_exercises"
  proof (intro allI impI ballI)
    fix k :: nat and e
    assume "k < 12" and e: "e \<in> set (exercise_names (all_sessions p ! k))"
    with s obtain day where so: "session_of ?goal day k (all_sessions p ! k)" by blast
    from session_of_members [OF so e]
    show "if ?goal = ''hipertrofia'' \<or> ?goal = ''forca''
          then \<exists>m\<in>set (split_muscles (split_at ?goal k)). e \<in> set (exercise_dict_get m)
          else e \<in> set cardio_exercises"
      by (simp add: muscle_goal_def)
  qed
  with p l show ?thesis unfolding split_at_def by blast
qed

theorem C6_exercise_membership_witness:
  "(\<exists>p g'. generate_plan (example_profile ''hipertrofia'' 4) (example_analytics ''hipertrofia'')
              example_rng = Inr (p, g')
       \<and> exercise_names (all_sessions p ! 1) \<noteq> []
       \<and> set (exercise_names (all_sessions p ! 1))
            \<subseteq> set (exercise_dict_get ''back'') \<union> set (exercise_dict_get ''biceps''))
   \<and> (\<exists>p g'. generate_plan (example_profile ''emagrecimento'' 4)
              (example_analytics ''emagrecimento'') example_rng = Inr (p, g')
       \<and> exercise_names (all_sessions p ! 1) \<noteq> []
       \<and> set (exercise_names (all_sessions p ! 1)) \<subseteq> set cardio_exercises)"
proof -
  have f: "1 \<le> training_frequency (example_profile ''hipertrofia'' 4)"
    "1 \<le> training_frequency (example_profile ''emagrecimento'' 4)"
    by (simp_all add: example_profile_def)
  have g: "primary_goal (example_profile ''hipertrofia'' 4) = ''hipertrofia''"
    "primary_goal (example_profile ''emagrecimento'' 4) = ''emagrecimento''"
    by (simp_all add: example_profile_def)
  have s: "split_muscles (goal_splits ''hipertrofia'' ! (1 mod length (goal_splits ''hipertrofia'')))
             = [''back'', ''biceps'']"
    by (simp add: goal_splits_def hypertrophy_splits_def)
  have k: "(1::nat) < 12" by simp
  have ne: "\<And>up an g p g'. 1 \<le> training_frequency up \<Longrightarrow> generate_plan up an g = Inr (p, g')
              \<Longrightarrow> exercise_names (all_sessions p ! 1) \<noteq> []"
  proof -
    fix up an g p g'
    assume 1: "1 \<le> training_frequency up" and 2: "generate_plan up an g = Inr (p, g')"
    from generate_plan_ok [OF 1, of an g] obtain p0 g0 where
      "generate_plan up an g = Inr (p0, g0)"
      "\<forall>k<12. \<exists>day\<in>{1..training_frequency up}.
           session_of (primary_goal up) day k (all_sessions p0 ! k)" by blast
    with 2 have "\<forall>k<12. \<exists>day\<in>{1..training_frequency up}.
           session_of (primary_goal up) day k (all_sessions p ! k)" by simp
    with k obtain day where
      so: "session_of (primary_goal up) day 1 (all_sessions p ! 1)" by blast
    show "exercise_names (all_sessions p ! 1) \<noteq> []"
    proof (cases "muscle_goal (primary_goal up)")
      case True
      from session_of_count_muscle(1) [OF so True] show ?thesis
        by (auto simp: exercise_names_def)
    next
      case False
      from session_of_cardio(1) [OF so False] show ?thesis by auto
    qed
  qed
  from C6_exercise_membership [OF f(1), of "example_analytics ''hipertrofia''" example_rng]
  obtain p g' where
    p: "generate_plan (example_profile ''hipertrofia'' 4) (example_analytics ''hipertrofia'')
              example_rng = Inr (p, g')"
    and a: "\<forall>k<12. \<forall>e\<in>set (exercise_names (all_sessions p ! k)).
          \<exists>m\<in>set (split_muscles (goal_splits ''hipertrofia''
                          ! (k mod length (goal_splits ''hipertrofia'')))).
                  e \<in> set (exercise_dict_get m)"
    unfolding g by auto
  from a k have "\<forall>e\<in>set (exercise_names (all_sessions p ! 1)).
          \<exists>m\<in>set [''back'', ''biceps'']. e \<in> set (exercise_dict_get m)"
    unfolding s [symmetric] by blast
  then have "set (exercise_names (all_sessions p ! 1))
            \<subseteq> set (exercise_dict_get ''back'') \<union> set (exercise_dict_get ''biceps'')"
    by auto
  with p ne [OF f(1) p]
  have A: "\<exists>p g'. generate_plan (example_profile ''hipertrofia'' 4) (example_analytics ''hipertrofia'')
              example_rng = Inr (p, g')
       \<and> exercise_names (all_sessions p ! 1) \<noteq> []
       \<and> set (exercise_names (all_sessions p ! 1))
            \<subseteq> set (exercise_dict_get ''back'') \<union> set (exercise_dict_get ''biceps'')"
    by blast
  from C6_exercise_membership [OF f(2), of "example_analytics ''emagrecimento''" example_rng]
  obtain q h' where
    q: "generate_plan (example_profile ''emagrecimento'' 4)
              (example_analytics ''emagrecimento'') example_rng = Inr (q, h')"
    and b: "\<forall>k<12. \<forall>e\<in>set (exercise_names (all_sessions q ! k)). e \<in> set cardio_exercises"
    unfolding g by auto
  from b k have "set (exercise_names (all_sessions q ! 1)) \<subseteq> set cardio_exercises" by blast
  with q ne [OF f(2) q]
  have B: "\<exists>p g'. generate_plan (example_profile ''emagrecimento'' 4)
              (example_analytics ''emagrecimento'') example_rng = Inr (p, g')
       \<and> exercise_names (all_sessions p ! 1) \<noteq> []
       \<and> set (exercise_names (all_sessions p ! 1)) \<subseteq> set cardio_exercises"
    by blast
  from A B show ?thesis by blast
qed

text \<open>
  Claim C10. \<^verbatim>\<open>generate_plan\<close> does not read its analytics argument: two calls whose
  profiles agree on the goal and the frequency, with the same generator, return the same
  plan, whatever the analytics records and the other profile fields are.
\<close>

theorem C10_analytics_unused:
  assumes "primary_goal up1 = primary_goal up2"
    and "training_frequency up1 = training_frequency up2"
  shows "generate_plan up1 an1 g = generate_plan up2 an2 g"
  using assms by (simp add: generate_plan_def)

theorem C10_analytics_unused_witness:
  "generate_plan
     \<lparr>age = 25, weight_kg = Fin 75, training_frequency = 4, primary_goal = ''forca'',
      experience_level = ''iniciante'', restrictions = None, additional_notes = None,
      height_cm = None\<rparr>
     (example_analytics ''forca'') example_rng
   = generate_plan
     \<lparr>age = 61, weight_kg = Fin 102, training_frequency = 4, primary_goal = ''forca'',
      experience_level = ''avancado'', restrictions = Some ''dor no ombro'',
      additional_notes = None, height_cm = Some (Fin 180)\<rparr>
     (example_analytics ''hipertrofia'') example_rng"
  by (rule C10_analytics_unused) simp_all

end
